theory Spec2Isabelle
  imports Complex_Main "HOL-Library.Word"
begin

unbundle bit_operations_syntax

section \<open>Python values used by the service\<close>

text \<open>
  The service is one Python module (\<^verbatim>\<open>src/main.py\<close>). Its values are modelled as
  follows.
  \<^item> A \<^verbatim>\<open>float\<close> is the real number it denotes and float arithmetic is exact
    arithmetic on \<open>real\<close>: rounding to 53 bits, infinities and NaN are outside the model.
  \<^item> An \<^verbatim>\<open>int\<close> is an \<open>int\<close>.
  \<^item> A \<^verbatim>\<open>str\<close> handed in by a client or built by a format string is a \<open>string\<close>;
    a \<open>char\<close> stands for a code point below 256.
  \<^item> \<^verbatim>\<open>bytes\<close> is a list of 8-bit words, and the \<^verbatim>\<open>str\<close> that
    \<^verbatim>\<open>bytes.decode\<close> returns is the list of its code points.
  \<^item> An exception that leaves a function is the \<open>Inl\<close> side of its result.
\<close>

datatype error = ValueError | HTTPException nat | FileNotFoundError

type_synonym byte = "8 word"

subsection \<open>Conversions between numbers\<close>

text \<open>\<^verbatim>\<open>int(x)\<close> on a float truncates towards zero.\<close>

definition py_int :: "real \<Rightarrow> int" where
  "py_int x = (if 0 \<le> x then \<lfloor>x\<rfloor> else \<lceil>x\<rceil>)"

text \<open>
  \<^verbatim>\<open>x // y\<close> and \<^verbatim>\<open>x % y\<close> on floats: the quotient is rounded towards minus
  infinity and stays a float, the remainder takes the sign of the divisor. The module
  only divides by the constants 3600 and 60.
\<close>

definition py_floordiv :: "real \<Rightarrow> real \<Rightarrow> real" where
  "py_floordiv x y = of_int \<lfloor>x / y\<rfloor>"

definition py_mod :: "real \<Rightarrow> real \<Rightarrow> real" where
  "py_mod x y = x - y * of_int \<lfloor>x / y\<rfloor>"

subsection \<open>Format specifications\<close>

definition digit_char :: "nat \<Rightarrow> char" where
  "digit_char d = ''0123456789ABCDEF'' ! d"

fun dec_digits :: "nat \<Rightarrow> string" where
  "dec_digits n = (if n < 10 then [digit_char n] else dec_digits (n div 10) @ [digit_char (n mod 10)])"

fun hex_digits :: "nat \<Rightarrow> string" where
  "hex_digits n = (if n < 16 then [digit_char n] else hex_digits (n div 16) @ [digit_char (n mod 16)])"

declare dec_digits.simps [simp del] hex_digits.simps [simp del]

text \<open>\<^verbatim>\<open>str.zfill\<close>-style padding on the left with the character 0.\<close>

definition zero_pad :: "nat \<Rightarrow> string \<Rightarrow> string" where
  "zero_pad w s = replicate (w - length s) (CHR ''0'') @ s"

text \<open>
  The format specifications \<^verbatim>\<open>{i:0w}\<close> and \<^verbatim>\<open>{i:0wX}\<close> of an int: the zero
  padding is sign aware, so the sign counts towards the width \<open>w\<close> and the zeros follow it.
\<close>

definition fmt_0d :: "nat \<Rightarrow> int \<Rightarrow> string" where
  "fmt_0d w i = (if i < 0 then CHR ''-'' # zero_pad (w - 1) (dec_digits (nat (- i)))
                 else zero_pad w (dec_digits (nat i)))"

definition fmt_0X :: "nat \<Rightarrow> int \<Rightarrow> string" where
  "fmt_0X w i = (if i < 0 then CHR ''-'' # zero_pad (w - 1) (hex_digits (nat (- i)))
                 else zero_pad w (hex_digits (nat i)))"

text \<open>\<^verbatim>\<open>str(i)\<close> and \<^verbatim>\<open>{i}\<close> of an int.\<close>

definition py_str :: "int \<Rightarrow> string" where
  "py_str i = fmt_0d 0 i"

subsection \<open>\<^verbatim>\<open>int(s, 16)\<close>\<close>

text \<open>
  The builtin, as CPython reads a string in base 16: white space around the number is
  skipped, one sign and one prefix \<^verbatim>\<open>0x\<close> are allowed, the digits may be grouped by single
  underscores, and everything else is a \<^verbatim>\<open>ValueError\<close>.
\<close>

definition is_space :: "char \<Rightarrow> bool" where
  "is_space c \<longleftrightarrow> of_char c \<in> set [9, 10, 11, 12, 13, 32, 133, 160 :: nat]"

definition hex_val :: "char \<Rightarrow> nat option" where
  "hex_val c =
     (let n = (of_char c :: nat) in
      if 48 \<le> n \<and> n \<le> 57 then Some (n - 48)
      else if 65 \<le> n \<and> n \<le> 70 then Some (n - 55)
      else if 97 \<le> n \<and> n \<le> 102 then Some (n - 87)
      else None)"

definition is_digit_or_underscore :: "char \<Rightarrow> bool" where
  "is_digit_or_underscore c \<longleftrightarrow> c = CHR ''_'' \<or> hex_val c \<noteq> None"

fun double_underscore :: "string \<Rightarrow> bool" where
  "double_underscore (a # b # cs) = ((a = CHR ''_'' \<and> b = CHR ''_'') \<or> double_underscore (b # cs))"
| "double_underscore cs = False"

definition digits_value :: "string \<Rightarrow> nat" where
  "digits_value ds = foldl (\<lambda>acc c. case hex_val c of Some d \<Rightarrow> 16 * acc + d | None \<Rightarrow> acc) 0 ds"

definition strip_sign :: "string \<Rightarrow> bool \<times> string" where
  "strip_sign s =
     (case s of
        c # cs \<Rightarrow> if c = CHR ''+'' then (False, cs) else if c = CHR ''-'' then (True, cs) else (False, s)
      | [] \<Rightarrow> (False, s))"

definition strip_prefix_0x :: "string \<Rightarrow> string" where
  "strip_prefix_0x s =
     (case s of
        a # b # cs \<Rightarrow>
          if a = CHR ''0'' \<and> (b = CHR ''x'' \<or> b = CHR ''X'')
          then (case cs of c # ds \<Rightarrow> if c = CHR ''_'' then ds else cs | [] \<Rightarrow> cs)
          else s
      | _ \<Rightarrow> s)"

definition py_int16 :: "string \<Rightarrow> error + int" where
  "py_int16 s =
     (let (neg, s1) = strip_sign (dropWhile is_space s);
          s2 = strip_prefix_0x s1;
          ds = takeWhile is_digit_or_underscore s2;
          rest = dropWhile is_digit_or_underscore s2
      in if ds = [] \<or> hd s1 = CHR ''_'' \<or> hd ds = CHR ''_'' \<or> last ds = CHR ''_''
            \<or> double_underscore ds \<or> dropWhile is_space rest \<noteq> []
         then Inl ValueError
         else Inr (if neg then - int (digits_value ds) else int (digits_value ds)))"

section \<open>Style encoder\<close>

text \<open>
  \<^verbatim>\<open>alignment_map.get(position, 2)\<close> in \<^verbatim>\<open>burn_subtitles\<close>.
\<close>

definition alignment_map :: "string \<rightharpoonup> int" where
  "alignment_map = [''bottom'' \<mapsto> 2, ''top'' \<mapsto> 8, ''left'' \<mapsto> 4, ''right'' \<mapsto> 6, ''center'' \<mapsto> 5]"

definition align_of :: "string \<Rightarrow> int" where
  "align_of position = (case alignment_map position of Some a \<Rightarrow> a | None \<Rightarrow> 2)"

text \<open>
  \<^verbatim>\<open>hex_to_ass(hex_color, alpha)\<close>. \<^verbatim>\<open>lstrip('#')\<close> removes every leading \<open>#\<close>;
  the only check on what is left is its length; the three slices are then read by
  \<^verbatim>\<open>int(_, 16)\<close>, which may raise. \<open>alpha_byte\<close> is the local \<^verbatim>\<open>aa\<close>.
\<close>

definition lstrip_hash :: "string \<Rightarrow> string" where
  "lstrip_hash s = dropWhile (\<lambda>c. c = CHR ''#'') s"

definition alpha_byte :: "real \<Rightarrow> int" where
  "alpha_byte alpha = py_int (max 0 (min 1 alpha) * 255)"

definition hex_to_ass :: "string \<Rightarrow> real \<Rightarrow> error + string" where
  "hex_to_ass hex_color alpha =
     (let h0 = lstrip_hash hex_color;
          h = (if length h0 \<noteq> 6 then ''FFFFFF'' else h0)
      in case py_int16 (take 2 h) of
           Inl e \<Rightarrow> Inl e
         | Inr r \<Rightarrow>
             (case py_int16 (take 2 (drop 2 h)) of
                Inl e \<Rightarrow> Inl e
              | Inr g \<Rightarrow>
                  (case py_int16 (take 2 (drop 4 h)) of
                     Inl e \<Rightarrow> Inl e
                   | Inr b \<Rightarrow>
                       Inr (''&H'' @ fmt_0X 2 (alpha_byte alpha) @ fmt_0X 2 b @ fmt_0X 2 g @ fmt_0X 2 r))))"

text \<open>
  The two colours of a request: \<^verbatim>\<open>primary = hex_to_ass(color, 0.0)\<close> and
  \<^verbatim>\<open>back = hex_to_ass("000000", 1.0 - max(0.0, min(1.0, bg_opacity)))\<close>.
\<close>

definition primary_colour :: "string \<Rightarrow> error + string" where
  "primary_colour color = hex_to_ass color 0"

definition back_alpha :: "real \<Rightarrow> real" where
  "back_alpha bg_opacity = 1 - max 0 (min 1 bg_opacity)"

definition back_colour :: "real \<Rightarrow> error + string" where
  "back_colour bg_opacity = hex_to_ass ''000000'' (back_alpha bg_opacity)"

section \<open>Subtitle formatter\<close>

text \<open>
  The local function \<^verbatim>\<open>ts\<close> of \<^verbatim>\<open>_generate_demo_srt\<close>:
  \<^verbatim>\<open>h = int(t // 3600); m = int((t % 3600) // 60); s = int(t % 60);
  ms = int((t - int(t)) * 1000); return f"{h:02}:{m:02}:{s:02},{ms:03}"\<close>.
\<close>

definition ts :: "real \<Rightarrow> string" where
  "ts t =
     (let h = py_int (py_floordiv t 3600);
          m = py_int (py_floordiv (py_mod t 3600) 60);
          s = py_int (py_mod t 60);
          ms = py_int ((t - of_int (py_int t)) * 1000)
      in fmt_0d 2 h @ '':'' @ fmt_0d 2 m @ '':'' @ fmt_0d 2 s @ '','' @ fmt_0d 3 ms)"

text \<open>The list \<^verbatim>\<open>segments\<close>: start, end as computed, caption.\<close>

definition segments :: "real \<Rightarrow> (real \<times> real \<times> string) list" where
  "segments duration =
     [(0, min 3 duration, ''Namaste! Yeh demo transcription hai.''),
      (3, min 6 duration, ''Aap yahan subtitles edit kar sakte ho.''),
      (6, duration, ''Jab ready ho, burn-in karke download kar lo.'')]"

text \<open>The guard of the loop body: \<^verbatim>\<open>if end <= start: end = start + 1\<close>.\<close>

definition fix_end :: "real \<Rightarrow> real \<Rightarrow> real" where
  "fix_end start end_t = (if end_t \<le> start then start + 1 else end_t)"

text \<open>The four lines one iteration appends for the \<open>i\<close>-th segment.\<close>

fun cue_lines :: "int \<Rightarrow> real \<times> real \<times> string \<Rightarrow> string list" where
  "cue_lines i (start, end_t, caption) =
     [py_str i, ts start @ '' --> '' @ ts (fix_end start end_t), caption, []]"

text \<open>
  The loop over \<^verbatim>\<open>enumerate(segments, start=1)\<close>, with the list \<^verbatim>\<open>lines\<close> as
  accumulator.
\<close>

fun srt_loop :: "int \<Rightarrow> (real \<times> real \<times> string) list \<Rightarrow> string list \<Rightarrow> string list" where
  "srt_loop i [] acc = acc"
| "srt_loop i (seg # segs) acc = srt_loop (i + 1) segs (acc @ cue_lines i seg)"

text \<open>\<^verbatim>\<open>sep.join(xs)\<close>.\<close>

fun join :: "string \<Rightarrow> string list \<Rightarrow> string" where
  "join sep [] = []"
| "join sep [x] = x"
| "join sep (x # y # ys) = x @ sep @ join sep (y # ys)"

definition generate_demo_srt :: "real \<Rightarrow> string" where
  "generate_demo_srt duration = join [CHR 0x0A] (srt_loop 1 (segments duration) [])"

text \<open>
  The cues the loop renders: each segment with its end after the guard. The function
  keeps no such list; \<open>cues\<close> names the values its timing lines are computed from.
\<close>

definition cues :: "real \<Rightarrow> (real \<times> real \<times> string) list" where
  "cues duration =
     map (\<lambda>(start, end_t, caption). (start, fix_end start end_t, caption)) (segments duration)"

text \<open>
  The specification's reading of "the cues partition \<open>[0, d)\<close>": the first cue starts
  at 0, each cue ends where the next one starts, and the last one ends at \<open>d\<close>.
\<close>

fun chained :: "real \<Rightarrow> (real \<times> real \<times> string) list \<Rightarrow> real \<Rightarrow> bool" where
  "chained a [] b = (a = b)"
| "chained a ((start, end_t, caption) # cs) b = (start = a \<and> start < end_t \<and> chained end_t cs b)"

definition partitions :: "(real \<times> real \<times> string) list \<Rightarrow> real \<Rightarrow> bool" where
  "partitions cs d = chained 0 cs d"

subsection \<open>Reading a timestamp back\<close>







section \<open>Uploads and the transcription endpoint\<close>

record upload_file =
  filename :: "string option"
  content :: "byte list"

text \<open>\<^verbatim>\<open>if not file or not file.filename\<close>: no name, or the empty name.\<close>

definition no_file :: "upload_file \<Rightarrow> bool" where
  "no_file f = (case filename f of None \<Rightarrow> True | Some n \<Rightarrow> n = [])"

text \<open>
  What the duration probe meets outside the program: the call to the inspection tool
  raises (no binary, a non-zero exit), or it prints a text that \<^verbatim>\<open>float\<close> either
  rejects (\<open>None\<close>) or reads as a number.
\<close>

datatype ffprobe_run = FfprobeRaises | FfprobeStdout "real option"

definition ffprobe_duration :: "ffprobe_run \<Rightarrow> real option" where
  "ffprobe_duration run =
     (case run of FfprobeRaises \<Rightarrow> None | FfprobeStdout None \<Rightarrow> None | FfprobeStdout (Some d) \<Rightarrow> Some d)"

text \<open>\<^verbatim>\<open>x or d\<close> for an optional float: \<^verbatim>\<open>None\<close> and \<^verbatim>\<open>0.0\<close> are both falsy.\<close>

definition or_default :: "real option \<Rightarrow> real \<Rightarrow> real" where
  "or_default x d = (case x of None \<Rightarrow> d | Some v \<Rightarrow> if v = 0 then d else v)"

definition transcribe_duration :: "ffprobe_run \<Rightarrow> real" where
  "transcribe_duration run = or_default (ffprobe_duration run) 9"

text \<open>\<^verbatim>\<open>transcribe_video\<close>: the JSON body is the pair of \<^verbatim>\<open>srt\<close> and \<^verbatim>\<open>duration\<close>.\<close>

definition transcribe_video :: "upload_file \<Rightarrow> ffprobe_run \<Rightarrow> error + (string \<times> real)" where
  "transcribe_video f run =
     (if no_file f then Inl (HTTPException 400)
      else let duration = transcribe_duration run in Inr (generate_demo_srt duration, duration))"

section \<open>The subtitle upload endpoint\<close>

text \<open>
  \<^verbatim>\<open>bytes.decode("utf-8", errors="ignore")\<close>, as CPython's decoder works: one step reads
  the sequence that starts at the first byte and either yields its code point, or reports
  an error span, which the \<^verbatim>\<open>ignore\<close> handler skips. An invalid start byte is a span of
  one byte; an invalid continuation byte ends a span that holds the bytes before it; a
  sequence cut off by the end of the data is a span that holds all the bytes left.
\<close>

datatype utf8_step = Decoded nat nat | Skipped nat

definition is_continuation :: "byte \<Rightarrow> bool" where
  "is_continuation b \<longleftrightarrow> 0x80 \<le> b \<and> b \<le> 0xBF"

definition utf8_2 :: "byte \<Rightarrow> byte list \<Rightarrow> utf8_step" where
  "utf8_2 b bs =
     (case bs of
        [] \<Rightarrow> Skipped 1
      | b2 # _ \<Rightarrow>
          if \<not> is_continuation b2 then Skipped 1
          else Decoded (unat b * 64 + unat b2 - (0xC0 * 64 + 0x80)) 2)"

definition utf8_3 :: "byte \<Rightarrow> byte list \<Rightarrow> utf8_step" where
  "utf8_3 b bs =
     (case bs of
        [] \<Rightarrow> Skipped 1
      | b2 # r2 \<Rightarrow>
          if \<not> is_continuation b2 \<or> (if b2 < 0xA0 then b = 0xE0 else b = 0xED) then Skipped 1
          else (case r2 of
                  [] \<Rightarrow> Skipped 2
                | b3 # _ \<Rightarrow>
                    if \<not> is_continuation b3 then Skipped 2
                    else Decoded (unat b * 4096 + unat b2 * 64 + unat b3
                                  - (0xE0 * 4096 + 0x80 * 64 + 0x80)) 3))"

definition utf8_4 :: "byte \<Rightarrow> byte list \<Rightarrow> utf8_step" where
  "utf8_4 b bs =
     (case bs of
        [] \<Rightarrow> Skipped 1
      | b2 # r2 \<Rightarrow>
          if \<not> is_continuation b2 \<or> (if b2 < 0x90 then b = 0xF0 else b = 0xF4) then Skipped 1
          else (case r2 of
                  [] \<Rightarrow> Skipped 2
                | b3 # r3 \<Rightarrow>
                    if \<not> is_continuation b3 then Skipped 2
                    else (case r3 of
                            [] \<Rightarrow> Skipped 3
                          | b4 # _ \<Rightarrow>
                              if \<not> is_continuation b4 then Skipped 3
                              else Decoded (unat b * 262144 + unat b2 * 4096 + unat b3 * 64 + unat b4
                                            - (0xF0 * 262144 + 0x80 * 4096 + 0x80 * 64 + 0x80)) 4)))"

definition utf8_next :: "byte \<Rightarrow> byte list \<Rightarrow> utf8_step" where
  "utf8_next b bs =
     (if b < 0x80 then Decoded (unat b) 1
      else if b < 0xC2 then Skipped 1
      else if b < 0xE0 then utf8_2 b bs
      else if b < 0xF0 then utf8_3 b bs
      else if b < 0xF5 then utf8_4 b bs
      else Skipped 1)"

function utf8_decode_ignore :: "byte list \<Rightarrow> nat list" where
  "utf8_decode_ignore [] = []"
| "utf8_decode_ignore (b # bs) =
     (case utf8_next b bs of
        Decoded cp n \<Rightarrow> cp # utf8_decode_ignore (drop (n - 1) bs)
      | Skipped n \<Rightarrow> utf8_decode_ignore (drop (n - 1) bs))"
  by pat_completeness auto
termination
  by (relation "measure length") auto

text \<open>
  The same decoder with the \<^verbatim>\<open>replace\<close> handler, which puts U+FFFD where a span was:
  what "undecodable bytes are replaced" means for a Python codec. The module never calls
  it; it is here to be compared with.
\<close>

function utf8_decode_replace :: "byte list \<Rightarrow> nat list" where
  "utf8_decode_replace [] = []"
| "utf8_decode_replace (b # bs) =
     (case utf8_next b bs of
        Decoded cp n \<Rightarrow> cp # utf8_decode_replace (drop (n - 1) bs)
      | Skipped n \<Rightarrow> 0xFFFD # utf8_decode_replace (drop (n - 1) bs))"
  by pat_completeness auto
termination
  by (relation "measure length") auto


section \<open>The burn endpoint\<close>

subsection \<open>Temporary files\<close>

text \<open>
  A temporary file is named by the number \<^verbatim>\<open>mkstemp\<close> drew for it and its suffix. The
  file system is the content of every file and the next number to draw.
\<close>

datatype path = TmpPath nat string

record file_system =
  files :: "path \<rightharpoonup> byte list"
  next_tmp :: nat

definition path_str :: "path \<Rightarrow> string" where
  "path_str p = (case p of TmpPath n suffix \<Rightarrow> ''/tmp/tmp'' @ dec_digits n @ suffix)"

definition mkstemp :: "string \<Rightarrow> file_system \<Rightarrow> path \<times> file_system" where
  "mkstemp suffix fs =
     (let p = TmpPath (next_tmp fs) suffix
      in (p, fs\<lparr>files := (files fs)(p \<mapsto> []), next_tmp := next_tmp fs + 1\<rparr>))"

definition write_file :: "path \<Rightarrow> byte list \<Rightarrow> file_system \<Rightarrow> file_system" where
  "write_file p bs fs = fs\<lparr>files := (files fs)(p \<mapsto> bs)\<rparr>"

definition remove_file :: "path \<Rightarrow> file_system \<Rightarrow> file_system" where
  "remove_file p fs = fs\<lparr>files := (files fs)(p := None)\<rparr>"

text \<open>\<^verbatim>\<open>shutil.copy(src, dst)\<close>: raises when the source is missing.\<close>

definition copy_file :: "path \<Rightarrow> path \<Rightarrow> file_system \<Rightarrow> error + file_system" where
  "copy_file src dst fs =
     (case files fs src of None \<Rightarrow> Inl FileNotFoundError | Some bs \<Rightarrow> Inr (write_file dst bs fs))"

text \<open>
  \<^verbatim>\<open>os.path.splitext(p)[1]\<close> on a POSIX system: the extension starts at the last dot
  of the last path component, unless only dots stand before it there.
\<close>

definition splitext_ext :: "string \<Rightarrow> string" where
  "splitext_ext p =
     (let base = rev (takeWhile (\<lambda>c. c \<noteq> CHR ''/'') (rev p));
          ext = rev (takeWhile (\<lambda>c. c \<noteq> CHR ''.'') (rev base));
          stem = take (length base - length ext - 1) base
      in if CHR ''.'' \<in> set base \<and> (\<exists>c \<in> set stem. c \<noteq> CHR ''.'') then CHR ''.'' # ext else [])"

text \<open>\<^verbatim>\<open>_save_upload_to_temp\<close>.\<close>

definition save_upload_to_temp :: "upload_file \<Rightarrow> file_system \<Rightarrow> path \<times> file_system" where
  "save_upload_to_temp f fs =
     (let name = (case filename f of None \<Rightarrow> [] | Some n \<Rightarrow> n);
          ext = splitext_ext name;
          suffix = (if ext = [] then ''.bin'' else ext);
          (tmp_path, fs1) = mkstemp suffix fs
      in (tmp_path, write_file tmp_path (content f) fs1))"

text \<open>The text written by \<^verbatim>\<open>open(srt_path, "w", encoding="utf-8")\<close>.\<close>

definition utf8_encode_char :: "char \<Rightarrow> byte list" where
  "utf8_encode_char c =
     (let n = (of_char c :: nat)
      in if n < 128 then [of_nat n] else [of_nat (192 + n div 64), of_nat (128 + n mod 64)])"

definition utf8_encode :: "string \<Rightarrow> byte list" where
  "utf8_encode s = concat (map utf8_encode_char s)"

subsection \<open>The external engine\<close>

text \<open>
  The engine is outside the program. The availability probe \<^verbatim>\<open>ffmpeg -version\<close> returns
  cleanly or raises. The render call is given the command line and the files it can read;
  it either returns cleanly, having written the output file, or raises (a non-zero exit,
  no binary), leaving in the output file whatever it had written by then.
\<close>

datatype render_outcome = RenderOk "byte list" | RenderRaises "byte list"

record engine =
  version_ok :: bool
  run_render :: "string list \<Rightarrow> (path \<rightharpoonup> byte list) \<Rightarrow> render_outcome"

definition ffmpeg_available :: "engine \<Rightarrow> bool" where
  "ffmpeg_available eng = version_ok eng"

subsection \<open>\<^verbatim>\<open>burn_subtitles\<close>\<close>

record burn_request =
  req_file :: upload_file
  req_srt :: string
  req_position :: string
  req_color :: string
  req_font_size :: int
  req_bg_opacity :: real

text \<open>
  The \<^verbatim>\<open>FileResponse\<close>, with the bytes it will send, the final value of the local
  \<^verbatim>\<open>used_ffmpeg\<close> and the file system the handler leaves behind.
\<close>

record burn_result =
  response_path :: path
  response_body :: "byte list option"
  media_type :: string
  response_filename :: string
  used_ffmpeg :: bool
  fs_after :: file_system

definition force_style :: "int \<Rightarrow> int \<Rightarrow> string \<Rightarrow> string \<Rightarrow> string" where
  "force_style align font_size primary bg =
     ''Alignment='' @ py_str align @ '',Fontsize='' @ py_str font_size
     @ '',PrimaryColour='' @ primary @ '',BackColour='' @ bg @ '',Outline=1,BorderStyle=3''"

definition ffmpeg_cmd :: "path \<Rightarrow> path \<Rightarrow> string \<Rightarrow> path \<Rightarrow> string list" where
  "ffmpeg_cmd video_path srt_path style out_path =
     [''ffmpeg'', ''-y'', ''-i'', path_str video_path, ''-vf'',
      ''subtitles='' @ path_str srt_path @ '':force_style='' @ [CHR 0x27] @ style @ [CHR 0x27],
      ''-c:a'', ''copy'', path_str out_path]"

text \<open>
  Lines 203 to 224: the probe, the render attempt and the two fallback copies. The result
  is the new value of \<^verbatim>\<open>used_ffmpeg\<close> and the file system; an exception of the render
  call is caught here, one of \<^verbatim>\<open>shutil.copy\<close> is not.
\<close>

definition render_or_fallback ::
  "engine \<Rightarrow> string list \<Rightarrow> path \<Rightarrow> path \<Rightarrow> file_system \<Rightarrow> error + (bool \<times> file_system)" where
  "render_or_fallback eng cmd video_path out_path fs =
     (if ffmpeg_available eng then
        (case run_render eng cmd (files fs) of
           RenderOk rendered \<Rightarrow> Inr (True, write_file out_path rendered fs)
         | RenderRaises partial \<Rightarrow>
             (case copy_file video_path out_path (write_file out_path partial fs) of
                Inl e \<Rightarrow> Inl e
              | Inr fs' \<Rightarrow> Inr (False, fs')))
      else
        (case copy_file video_path out_path fs of
           Inl e \<Rightarrow> Inl e
         | Inr fs' \<Rightarrow> Inr (False, fs')))"

text \<open>
  Lines 164 to 174: the upload is saved, the subtitle text is written and the output file
  is created. The result is the three paths and the file system after that.
\<close>

definition burn_setup :: "burn_request \<Rightarrow> file_system \<Rightarrow> path \<times> path \<times> path \<times> file_system" where
  "burn_setup req fs =
     (let (video_path, fs1) = save_upload_to_temp (req_file req) fs;
          (srt_path, fs2) = mkstemp ''.srt'' fs1;
          fs3 = write_file srt_path (utf8_encode (req_srt req)) fs2;
          (out_path, fs4) = mkstemp ''.mp4'' fs3
      in (video_path, srt_path, out_path, fs4))"

text \<open>Lines 176 to 201: the alignment, the two colours and the style string.\<close>

definition burn_style :: "burn_request \<Rightarrow> error + string" where
  "burn_style req =
     (let align = align_of (req_position req)
      in case primary_colour (req_color req) of
           Inl e \<Rightarrow> Inl e
         | Inr primary \<Rightarrow>
             (case back_colour (req_bg_opacity req) of
                Inl e \<Rightarrow> Inl e
              | Inr bg \<Rightarrow> Inr (force_style align (req_font_size req) primary bg)))"

definition burn_subtitles :: "burn_request \<Rightarrow> engine \<Rightarrow> file_system \<Rightarrow> error + burn_result" where
  "burn_subtitles req eng fs =
     (if no_file (req_file req) then Inl (HTTPException 400)
      else
        let (video_path, srt_path, out_path, fs4) = burn_setup req fs
        in case burn_style req of
             Inl e \<Rightarrow> Inl e
           | Inr style \<Rightarrow>
               (case render_or_fallback eng (ffmpeg_cmd video_path srt_path style out_path)
                       video_path out_path fs4 of
                  Inl e \<Rightarrow> Inl e
                | Inr (used, fs5) \<Rightarrow>
                    let fs6 = remove_file srt_path (remove_file video_path fs5)
                    in Inr \<lparr>response_path = out_path,
                            response_body = files fs6 out_path,
                            media_type = ''video/mp4'',
                            response_filename = (if used then ''subtitled.mp4'' else ''video.mp4''),
                            used_ffmpeg = used,
                            fs_after = fs6\<rparr>))"

text \<open>Sample values for the closed statements below.\<close>

definition sample_request :: burn_request where
  "sample_request =
     \<lparr>req_file = \<lparr>filename = Some ''clip.mp4'', content = [0x00, 0x01, 0x02]\<rparr>,
      req_srt = ''hi'', req_position = ''bottom'', req_color = ''#FFFFFF'',
      req_font_size = 28, req_bg_opacity = 2 / 5\<rparr>"

definition empty_fs :: file_system where
  "empty_fs = \<lparr>files = Map.empty, next_tmp = 0\<rparr>"

definition engine_absent :: engine where
  "engine_absent = \<lparr>version_ok = False, run_render = (\<lambda>cmd fl. RenderRaises [])\<rparr>"

definition engine_failing :: engine where
  "engine_failing = \<lparr>version_ok = True, run_render = (\<lambda>cmd fl. RenderRaises [0xAA])\<rparr>"

definition engine_working :: engine where
  "engine_working = \<lparr>version_ok = True, run_render = (\<lambda>cmd fl. RenderOk [0x0B, 0x0C])\<rparr>"

section \<open>Properties of the style encoder\<close>

lemma hex_val_facts:
  assumes "hex_val c = Some d"
  shows "d < 16" "\<not> is_space c" "c \<noteq> CHR ''+''" "c \<noteq> CHR ''-''" "c \<noteq> CHR ''_''"
    "c \<noteq> CHR ''x''" "c \<noteq> CHR ''X''" "is_digit_or_underscore c"
  using assms
  by (auto simp: hex_val_def Let_def is_space_def is_digit_or_underscore_def split: if_splits)

lemma py_int16_two_digits:
  assumes "hex_val a = Some x" "hex_val b = Some y"
  shows "py_int16 [a, b] = Inr (int (16 * x + y))"
  using assms hex_val_facts[OF assms(1)] hex_val_facts[OF assms(2)]
  by (simp add: py_int16_def strip_sign_def strip_prefix_0x_def digits_value_def)

lemma hex_digits_small: "n < 16 \<Longrightarrow> hex_digits n = [digit_char n]"
  by (simp add: hex_digits.simps)

lemma hex_digits_byte: "16 \<le> n \<Longrightarrow> n < 256 \<Longrightarrow> hex_digits n = [digit_char (n div 16), digit_char (n mod 16)]"
  by (subst hex_digits.simps) (simp add: hex_digits_small)

lemma fmt_0X_byte:
  assumes "n < 256"
  shows "fmt_0X 2 (int n) = [digit_char (n div 16), digit_char (n mod 16)]"
proof (cases "n < 16")
  case True
  then show ?thesis by (simp add: fmt_0X_def zero_pad_def hex_digits_small digit_char_def)
next
  case False
  then show ?thesis using assms by (simp add: fmt_0X_def zero_pad_def hex_digits_byte)
qed

lemma fmt_0X_two_digits:
  assumes "x < 16" "y < 16"
  shows "fmt_0X 2 (int (16 * x + y)) = [digit_char x, digit_char y]"
proof -
  have "16 * x + y < 256" using assms by simp
  then have "fmt_0X 2 (int (16 * x + y)) = [digit_char ((16 * x + y) div 16), digit_char ((16 * x + y) mod 16)]"
    by (rule fmt_0X_byte)
  then show ?thesis using assms by simp
qed



lemma hex_to_ass_short:
  assumes "length (lstrip_hash c) \<noteq> 6"
  shows "hex_to_ass c a = Inr (''&H'' @ fmt_0X 2 (alpha_byte a) @ ''FFFFFF'')"
proof -
  have F: "hex_val (CHR ''F'') = Some 15" by (simp add: hex_val_def)
  have P: "py_int16 ''FF'' = Inr (int (16 * 15 + 15))" by (rule py_int16_two_digits[OF F F])
  have X: "fmt_0X 2 (int (16 * 15 + 15)) = ''FF''"
    by (subst fmt_0X_two_digits) (simp_all add: digit_char_def)
  show ?thesis using assms P X by (simp add: hex_to_ass_def)
qed

lemma hex_to_ass_six_digits:
  assumes "lstrip_hash c = [r1, r2, g1, g2, b1, b2]"
    and "hex_val r1 = Some R1" "hex_val r2 = Some R2"
    and "hex_val g1 = Some G1" "hex_val g2 = Some G2"
    and "hex_val b1 = Some B1" "hex_val b2 = Some B2"
  shows "hex_to_ass c a = Inr (''&H'' @ fmt_0X 2 (alpha_byte a)
           @ [digit_char B1, digit_char B2, digit_char G1, digit_char G2, digit_char R1, digit_char R2])"
proof -
  have r: "py_int16 [r1, r2] = Inr (int (16 * R1 + R2))" using assms by (intro py_int16_two_digits)
  have g: "py_int16 [g1, g2] = Inr (int (16 * G1 + G2))" using assms by (intro py_int16_two_digits)
  have b: "py_int16 [b1, b2] = Inr (int (16 * B1 + B2))" using assms by (intro py_int16_two_digits)
  have fr: "fmt_0X 2 (int (16 * R1 + R2)) = [digit_char R1, digit_char R2]"
    using assms hex_val_facts(1) by (intro fmt_0X_two_digits) blast+
  have fg: "fmt_0X 2 (int (16 * G1 + G2)) = [digit_char G1, digit_char G2]"
    using assms hex_val_facts(1) by (intro fmt_0X_two_digits) blast+
  have fb: "fmt_0X 2 (int (16 * B1 + B2)) = [digit_char B1, digit_char B2]"
    using assms hex_val_facts(1) by (intro fmt_0X_two_digits) blast+
  show ?thesis
    unfolding hex_to_ass_def assms(1) using r g b fr fg fb by (simp del: of_nat_add of_nat_mult)
qed





lemma hex_to_ass_malformed_length:
  "hex_to_ass ''#ZZZ'' a = hex_to_ass ''#FFFFFF'' a"
  by (simp add: hex_to_ass_def lstrip_hash_def)

text \<open>
  Claim C2. A colour whose content after the leading \<open>#\<close> is not six hexadecimal digits
  is said to fall back to white and never to raise. The function only compares the length
  with 6 (lemma \<open>hex_to_ass_short\<close> is that fallback, \<open>hex_to_ass_malformed_length\<close> its
  instance \<open>#ZZZ\<close>): six characters that are no digits reach \<^verbatim>\<open>int(_, 16)\<close>, which
  raises \<^verbatim>\<open>ValueError\<close>, and the request fails with it.
\<close>

theorem hex_to_ass_six_non_digits_raises:
  "hex_to_ass ''#ZZZZZZ'' 0 = Inl ValueError
   \<and> primary_colour ''#ZZZZZZ'' = Inl ValueError"
  by (simp add: primary_colour_def hex_to_ass_def lstrip_hash_def py_int16_def strip_sign_def
      strip_prefix_0x_def is_space_def is_digit_or_underscore_def hex_val_def)







section \<open>Properties of the burn endpoint\<close>

lemma burn_setup_paths:
  assumes "burn_setup req fs = (vp, sp, outp, fs4)"
  shows "vp \<noteq> outp" "sp \<noteq> outp" "files fs4 vp = Some (content (req_file req))"
  using assms
  by (auto simp: burn_setup_def save_upload_to_temp_def mkstemp_def write_file_def Let_def
      split: prod.splits)

lemma render_or_fallback_cases:
  assumes "files fs vp = Some video" "vp \<noteq> outp"
  shows "render_or_fallback eng cmd vp outp fs =
           (if version_ok eng then
              (case run_render eng cmd (files fs) of
                 RenderOk rendered \<Rightarrow> Inr (True, write_file outp rendered fs)
               | RenderRaises partial \<Rightarrow> Inr (False, write_file outp video (write_file outp partial fs)))
            else Inr (False, write_file outp video fs))"
  using assms
  by (simp add: render_or_fallback_def ffmpeg_available_def copy_file_def write_file_def
      split: render_outcome.splits)

lemma back_colour_value:
  "back_colour x = Inr (''&H'' @ fmt_0X 2 (alpha_byte (back_alpha x)) @ ''000000'')"
proof -
  have Z: "hex_val (CHR ''0'') = Some 0" by (simp add: hex_val_def)
  show ?thesis
    unfolding back_colour_def
    using hex_to_ass_six_digits[OF _ Z Z Z Z Z Z, of "''000000''" "back_alpha x"]
    by (simp add: lstrip_hash_def digit_char_def)
qed

lemma burn_style_cases:
  "burn_style req =
     (case primary_colour (req_color req) of
        Inl e \<Rightarrow> Inl e
      | Inr primary \<Rightarrow>
          Inr (force_style (align_of (req_position req)) (req_font_size req) primary
                 (''&H'' @ fmt_0X 2 (alpha_byte (back_alpha (req_bg_opacity req))) @ ''000000'')))"
  by (simp add: burn_style_def back_colour_value split: sum.splits)

lemma burn_subtitles_result:
  assumes su: "burn_setup req fs = (vp, sp, outp, fs4)"
    and named: "\<not> no_file (req_file req)"
    and style: "burn_style req = Inr style"
  shows "\<exists>r. burn_subtitles req eng fs = Inr r
           \<and> response_path r = outp
           \<and> used_ffmpeg r = (version_ok eng \<and> (\<exists>rendered. run_render eng (ffmpeg_cmd vp sp style outp) (files fs4) = RenderOk rendered))
           \<and> response_body r =
               Some (if version_ok eng
                     then (case run_render eng (ffmpeg_cmd vp sp style outp) (files fs4) of
                             RenderOk rendered \<Rightarrow> rendered
                           | RenderRaises partial \<Rightarrow> content (req_file req))
                     else content (req_file req))
           \<and> response_filename r = (if used_ffmpeg r then ''subtitled.mp4'' else ''video.mp4'')"
proof -
  note p = burn_setup_paths[OF su]
  have r: "render_or_fallback eng (ffmpeg_cmd vp sp style outp) vp outp fs4 =
           (if version_ok eng then
              (case run_render eng (ffmpeg_cmd vp sp style outp) (files fs4) of
                 RenderOk rendered \<Rightarrow> Inr (True, write_file outp rendered fs4)
               | RenderRaises partial \<Rightarrow>
                   Inr (False, write_file outp (content (req_file req)) (write_file outp partial fs4)))
            else Inr (False, write_file outp (content (req_file req)) fs4))"
    by (rule render_or_fallback_cases[OF p(3) p(1)])
  show ?thesis
    using p(1,2) named
    by (cases "run_render eng (ffmpeg_cmd vp sp style outp) (files fs4)")
       (simp_all add: burn_subtitles_def su style r remove_file_def write_file_def)
qed

lemma burn_subtitles_error:
  "burn_subtitles req eng fs = Inl e \<longleftrightarrow>
     (no_file (req_file req) \<and> e = HTTPException 400)
     \<or> (\<not> no_file (req_file req) \<and> burn_style req = Inl e)"
proof (cases "no_file (req_file req)")
  case True
  then show ?thesis by (auto simp: burn_subtitles_def)
next
  case False
  obtain vp sp outp fs4 where su: "burn_setup req fs = (vp, sp, outp, fs4)"
    by (metis prod_cases4)
  show ?thesis
  proof (cases "burn_style req")
    case (Inl e')
    then show ?thesis using False by (auto simp: burn_subtitles_def su)
  next
    case (Inr style)
    from burn_subtitles_result[OF su False Inr, of eng]
    show ?thesis using False Inr by auto
  qed
qed

lemma hex_to_ass_error: "hex_to_ass c a = Inl e \<Longrightarrow> e = ValueError"
  by (auto simp: hex_to_ass_def py_int16_def Let_def split: sum.splits if_splits prod.splits)

lemma burn_style_error: "burn_style req = Inl e \<Longrightarrow> e = ValueError"
  by (auto simp: burn_style_cases primary_colour_def split: sum.splits dest: hex_to_ass_error)

lemma sample_request_style: "\<exists>style. burn_style sample_request = Inr style"
proof -
  have "length (lstrip_hash ''#FFFFFF'') = 6" by (simp add: lstrip_hash_def)
  have F: "hex_val (CHR ''F'') = Some 15" by (simp add: hex_val_def)
  have "\<exists>p. primary_colour ''#FFFFFF'' = Inr p"
    unfolding primary_colour_def
    using hex_to_ass_six_digits[OF _ F F F F F F, of "''#FFFFFF''" 0]
    by (simp add: lstrip_hash_def)
  then show ?thesis
    by (auto simp: burn_style_cases sample_request_def)
qed

lemma sample_request_named: "\<not> no_file (req_file sample_request)"
  by (simp add: sample_request_def no_file_def)

text \<open>
  Claim C1. Let a burn request have a file name and a colour that \<^verbatim>\<open>hex_to_ass\<close> accepts
  (the two checks made before the engine is touched). Whatever the engine does, the
  endpoint returns a response. If the availability probe fails, or the probe succeeds and
  the render call raises, \<^verbatim>\<open>used_ffmpeg\<close> is false and the file sent is the uploaded video,
  byte for byte; if the render call returns cleanly, \<^verbatim>\<open>used_ffmpeg\<close> is true and the file
  sent is what the engine wrote. An exception that does leave the endpoint is either
  the 400 for a missing file or the \<^verbatim>\<open>ValueError\<close> of the colour, and it leaves it
  with every engine alike: no failure of an engine call gets past the orchestrator.
\<close>

theorem burn_engine_failure_falls_back:
  assumes "burn_setup req fs = (video_path, srt_path, out_path, fs4)"
  shows "(\<not> no_file (req_file req) \<and> burn_style req = Inr style \<longrightarrow>
            (\<exists>r. burn_subtitles req eng fs = Inr r
               \<and> (\<not> version_ok eng \<longrightarrow>
                     \<not> used_ffmpeg r \<and> response_body r = Some (content (req_file req)))
               \<and> (\<forall>partial. version_ok eng
                       \<and> run_render eng (ffmpeg_cmd video_path srt_path style out_path) (files fs4)
                           = RenderRaises partial \<longrightarrow>
                     \<not> used_ffmpeg r \<and> response_body r = Some (content (req_file req)))
               \<and> (\<forall>rendered. version_ok eng
                       \<and> run_render eng (ffmpeg_cmd video_path srt_path style out_path) (files fs4)
                           = RenderOk rendered \<longrightarrow>
                     used_ffmpeg r \<and> response_body r = Some rendered)))
         \<and> (\<forall>e. burn_subtitles req eng fs = Inl e \<longrightarrow>
                (e = HTTPException 400 \<or> e = ValueError)
                \<and> (\<forall>eng'. burn_subtitles req eng' fs = Inl e))"
proof (intro conjI impI allI)
  assume "\<not> no_file (req_file req) \<and> burn_style req = Inr style"
  then have n: "\<not> no_file (req_file req)" and s: "burn_style req = Inr style" by simp_all
  from burn_subtitles_result[OF assms n s, of eng]
  show "\<exists>r. burn_subtitles req eng fs = Inr r
          \<and> (\<not> version_ok eng \<longrightarrow>
                \<not> used_ffmpeg r \<and> response_body r = Some (content (req_file req)))
          \<and> (\<forall>partial. version_ok eng
                  \<and> run_render eng (ffmpeg_cmd video_path srt_path style out_path) (files fs4)
                      = RenderRaises partial \<longrightarrow>
                \<not> used_ffmpeg r \<and> response_body r = Some (content (req_file req)))
          \<and> (\<forall>rendered. version_ok eng
                  \<and> run_render eng (ffmpeg_cmd video_path srt_path style out_path) (files fs4)
                      = RenderOk rendered \<longrightarrow>
                used_ffmpeg r \<and> response_body r = Some rendered)"
    by auto
next
  fix e assume "burn_subtitles req eng fs = Inl e"
  then show "e = HTTPException 400 \<or> e = ValueError"
    by (auto simp: burn_subtitles_error dest: burn_style_error)
next
  fix e eng' assume "burn_subtitles req eng fs = Inl e"
  then show "burn_subtitles req eng' fs = Inl e"
    by (simp add: burn_subtitles_error)
qed

theorem burn_engine_failure_falls_back_witness:
  "\<exists>r. burn_subtitles sample_request engine_failing empty_fs = Inr r
      \<and> \<not> used_ffmpeg r \<and> response_body r = Some [0x00, 0x01, 0x02]"
proof -
  obtain vp sp outp fs4 where su: "burn_setup sample_request empty_fs = (vp, sp, outp, fs4)"
    by (metis prod_cases4)
  obtain style where st: "burn_style sample_request = Inr style"
    using sample_request_style by blast
  have v: "version_ok engine_failing"
    and f: "run_render engine_failing (ffmpeg_cmd vp sp style outp) (files fs4) = RenderRaises [0xAA]"
    by (simp_all add: engine_failing_def)
  have c: "content (req_file sample_request) = [0x00, 0x01, 0x02]"
    by (simp add: sample_request_def)
  from burn_engine_failure_falls_back[OF su, of style engine_failing] sample_request_named st v f
  show ?thesis
    unfolding c by blast
qed

text \<open>
  Claim C5, as stated: with the engine absent the video goes out as
  \<^verbatim>\<open>subtitled.mp4\<close>, and the two failure paths give different file names. They do not:
  \<^verbatim>\<open>used_ffmpeg\<close> is still false on both paths, so both responses are named
  \<^verbatim>\<open>video.mp4\<close>.
\<close>

theorem burn_failure_filenames_equal:
  "(\<exists>r. burn_subtitles sample_request engine_absent empty_fs = Inr r
       \<and> response_filename r = ''video.mp4'' \<and> response_filename r \<noteq> ''subtitled.mp4'')
   \<and> (\<exists>r. burn_subtitles sample_request engine_failing empty_fs = Inr r
       \<and> response_filename r = ''video.mp4'')"
proof -
  obtain vp sp outp fs4 where su: "burn_setup sample_request empty_fs = (vp, sp, outp, fs4)"
    by (metis prod_cases4)
  obtain style where st: "burn_style sample_request = Inr style"
    using sample_request_style by blast
  have a: "\<not> version_ok engine_absent"
    by (simp add: engine_absent_def)
  have f: "run_render engine_failing (ffmpeg_cmd vp sp style outp) (files fs4) = RenderRaises [0xAA]"
    by (simp add: engine_failing_def)
  from burn_subtitles_result[OF su sample_request_named st, of engine_absent] a
  have 1: "\<exists>r. burn_subtitles sample_request engine_absent empty_fs = Inr r
       \<and> response_filename r = ''video.mp4'' \<and> response_filename r \<noteq> ''subtitled.mp4''"
    by auto
  from burn_subtitles_result[OF su sample_request_named st, of engine_failing] f
  have 2: "\<exists>r. burn_subtitles sample_request engine_failing empty_fs = Inr r
       \<and> response_filename r = ''video.mp4''"
    by auto
  from 1 2 show ?thesis by blast
qed

text \<open>
  Claim C5, amended: for a request that passes the two checks, the response is named
  \<^verbatim>\<open>subtitled.mp4\<close> exactly when the probe succeeded and the render call returned
  cleanly, and \<^verbatim>\<open>video.mp4\<close> otherwise; under the name \<^verbatim>\<open>video.mp4\<close> the file sent is
  the uploaded video unchanged. So the engine being absent and the render call failing
  give the same, honest, file name.
\<close>

theorem burn_filename_tells_fallback:
  assumes "burn_setup req fs = (video_path, srt_path, out_path, fs4)"
    and "\<not> no_file (req_file req)"
    and "burn_style req = Inr style"
  shows "\<exists>r. burn_subtitles req eng fs = Inr r
           \<and> response_filename r =
               (if version_ok eng
                   \<and> (\<exists>rendered. run_render eng (ffmpeg_cmd video_path srt_path style out_path) (files fs4)
                                    = RenderOk rendered)
                then ''subtitled.mp4'' else ''video.mp4'')
           \<and> (response_filename r = ''video.mp4'' \<longrightarrow>
                 response_body r = Some (content (req_file req)))"
proof -
  from burn_subtitles_result[OF assms, of eng]
  obtain r where r: "burn_subtitles req eng fs = Inr r"
    "used_ffmpeg r = (version_ok eng \<and> (\<exists>rendered. run_render eng (ffmpeg_cmd video_path srt_path style out_path) (files fs4) = RenderOk rendered))"
    "response_body r =
               Some (if version_ok eng
                     then (case run_render eng (ffmpeg_cmd video_path srt_path style out_path) (files fs4) of
                             RenderOk rendered \<Rightarrow> rendered
                           | RenderRaises partial \<Rightarrow> content (req_file req))
                     else content (req_file req))"
    "response_filename r = (if used_ffmpeg r then ''subtitled.mp4'' else ''video.mp4'')"
    by blast
  have "response_filename r = ''video.mp4'' \<longrightarrow> response_body r = Some (content (req_file req))"
    using r(2,3,4) by (auto split: render_outcome.splits if_splits)
  then show ?thesis using r(1,2,4) by auto
qed

theorem burn_filename_tells_fallback_witness:
  "\<exists>r. burn_subtitles sample_request engine_absent empty_fs = Inr r
      \<and> response_filename r = ''video.mp4'' \<and> response_body r = Some [0x00, 0x01, 0x02]"
proof -
  obtain vp sp outp fs4 where su: "burn_setup sample_request empty_fs = (vp, sp, outp, fs4)"
    by (metis prod_cases4)
  obtain style where st: "burn_style sample_request = Inr style"
    using sample_request_style by blast
  have a: "\<not> version_ok engine_absent"
    by (simp add: engine_absent_def)
  have c: "content (req_file sample_request) = [0x00, 0x01, 0x02]"
    by (simp add: sample_request_def)
  from burn_filename_tells_fallback[OF su sample_request_named st, of engine_absent] a
  show ?thesis
    unfolding c by auto
qed

text \<open>
  Claim C10. A probe that succeeds and reports 0.0 gives the same duration, 9.0, and the
  same response as a probe that fails, because \<^verbatim>\<open>0.0 or 9.0\<close> is 9.0; hence the duration
  handed to \<^verbatim>\<open>_generate_demo_srt\<close> is never 0.
\<close>

theorem transcribe_zero_duration_is_default:
  "transcribe_duration (FfprobeStdout (Some 0)) = 9
   \<and> transcribe_duration FfprobeRaises = 9
   \<and> transcribe_video f (FfprobeStdout (Some 0)) = transcribe_video f FfprobeRaises
   \<and> transcribe_duration run \<noteq> 0
   \<and> transcribe_video f run =
       (if no_file f then Inl (HTTPException 400)
        else Inr (generate_demo_srt (transcribe_duration run), transcribe_duration run))"
  by (simp add: transcribe_video_def transcribe_duration_def or_default_def ffprobe_duration_def
      split: ffprobe_run.splits option.splits)

section \<open>Properties of the subtitle formatter\<close>


































lemma generate_demo_srt_cues:
  "generate_demo_srt d =
     join [CHR 0x0A]
       (concat (map (\<lambda>(i, start, end_t, caption). [py_str i, ts start @ '' --> '' @ ts end_t, caption, []])
                    (zip [1, 2, 3] (cues d))))"
  by (simp add: generate_demo_srt_def segments_def cues_def)

lemma cues_times:
  "map (\<lambda>(start, end_t, caption). (start, end_t)) (cues d) =
     [(0, if min 3 d \<le> 0 then 1 else min 3 d),
      (3, if min 6 d \<le> 3 then 4 else min 6 d),
      (6, if d \<le> 6 then 7 else d)]"
  by (simp add: cues_def segments_def fix_end_def)

lemma cues_partition_iff: "partitions (cues d) d \<longleftrightarrow> 6 < d"
  by (auto simp: partitions_def cues_def segments_def fix_end_def min_def)

text \<open>
  Claim C4, as stated: for every positive duration the three cues partition \<open>[0, d)\<close>.
  For \<open>d = 2\<close> the cues are \<open>[0, 2)\<close>, \<open>[3, 4)\<close> and \<open>[6, 7)\<close>: the last two lie outside
  \<open>[0, 2)\<close>, so they do not.
\<close>

theorem demo_cues_short_video_no_partition:
  "\<not> partitions (cues 2) 2
   \<and> map (\<lambda>(start, end_t, caption). (start, end_t)) (cues 2) = [(0, 2), (3, 4), (6, 7)]"
  by (simp add: cues_partition_iff cues_times)

text \<open>
  Claim C4, amended: for every duration \<open>d\<close> the formatter renders exactly three cues,
  numbered 1 to 3, that start at 0, 3 and 6 seconds; their ends are \<open>min 3 d\<close>, \<open>min 6 d\<close>
  and \<open>d\<close>, each replaced by its start plus one second when it does not exceed the start;
  so every cue ends strictly after it starts, for \<open>d = 2\<close> too. The three cues partition
  \<open>[0, d)\<close> exactly when \<open>d\<close> is more than 6 seconds.
\<close>

theorem demo_cues_positive_length:
  "length (cues d) = 3
   \<and> map (\<lambda>(start, end_t, caption). (start, end_t)) (cues d) =
       [(0, if min 3 d \<le> 0 then 1 else min 3 d),
        (3, if min 6 d \<le> 3 then 4 else min 6 d),
        (6, if d \<le> 6 then 7 else d)]
   \<and> (\<forall>(start, end_t, caption) \<in> set (cues d). start < end_t)
   \<and> (partitions (cues d) d \<longleftrightarrow> 6 < d)
   \<and> generate_demo_srt d =
       join [CHR 0x0A]
         (concat (map (\<lambda>(i, start, end_t, caption). [py_str i, ts start @ '' --> '' @ ts end_t, caption, []])
                      (zip [1, 2, 3] (cues d))))"
proof -
  have "length (cues d) = 3"
    by (simp add: cues_def segments_def)
  moreover have "\<forall>(start, end_t, caption) \<in> set (cues d). start < end_t"
    by (simp add: cues_def segments_def fix_end_def)
  ultimately show ?thesis
    using cues_times[of d] cues_partition_iff[of d] generate_demo_srt_cues[of d] by blast
qed

theorem demo_cues_positive_length_witness:
  "map (\<lambda>(start, end_t, caption). (start, end_t)) (cues 2) = [(0, 2), (3, 4), (6, 7)]
   \<and> list_all (\<lambda>(start, end_t, caption). start < end_t) (cues 2)
   \<and> partitions (cues 7) 7"
  using demo_cues_positive_length[of 2] demo_cues_positive_length[of 7]
  by (simp add: list_all_iff)





lemma utf8_next_span:
  "utf8_next b bs = Decoded cp n \<Longrightarrow> n - 1 \<le> length bs"
  "utf8_next b bs = Skipped n \<Longrightarrow> n - 1 \<le> length bs"
  by (auto simp: utf8_next_def utf8_2_def utf8_3_def utf8_4_def split: if_splits list.splits)

lemma utf8_next_before_invalid:
  assumes "\<not> is_continuation bad"
  shows "utf8_next b (bs @ bad # ys) = utf8_next b bs"
proof (cases bs)
  case Nil
  then show ?thesis using assms
    by (simp add: utf8_next_def utf8_2_def utf8_3_def utf8_4_def)
next
  case 1: (Cons b2 r2)
  show ?thesis
  proof (cases r2)
    case Nil
    then show ?thesis using assms 1
      by (simp add: utf8_next_def utf8_2_def utf8_3_def utf8_4_def)
  next
    case 2: (Cons b3 r3)
    show ?thesis
    proof (cases r3)
      case Nil
      then show ?thesis using assms 1 2
        by (simp add: utf8_next_def utf8_2_def utf8_3_def utf8_4_def)
    next
      case (Cons b4 r4)
      then show ?thesis using 1 2
        by (simp add: utf8_next_def utf8_2_def utf8_3_def utf8_4_def)
    qed
  qed
qed


lemma utf8_decode_replace_resumes:
  assumes "\<not> is_continuation bad"
  shows "utf8_decode_replace (xs @ bad # ys) = utf8_decode_replace xs @ utf8_decode_replace (bad # ys)"
proof (induction xs rule: utf8_decode_replace.induct)
  case 1
  show ?case by simp
next
  case (2 b bs)
  have e: "utf8_next b (bs @ bad # ys) = utf8_next b bs"
    by (rule utf8_next_before_invalid[OF assms])
  show ?case
  proof (cases "utf8_next b bs")
    case (Decoded cp n)
    then have "n - 1 \<le> length bs" by (rule utf8_next_span)
    then show ?thesis using 2(1)[OF Decoded] e Decoded by simp
  next
    case (Skipped n)
    then have "n - 1 \<le> length bs" by (rule utf8_next_span)
    then show ?thesis using 2(2)[OF Skipped] e Skipped by simp
  qed
qed

lemma invalid_start_byte:
  assumes "0xF5 \<le> bad"
  shows "\<not> is_continuation bad" and "utf8_next bad ys = Skipped 1"
proof -
  have "\<not> bad < 0xF5" using assms by simp
  moreover have "\<not> bad < 0xF0" "\<not> bad < 0xE0" "\<not> bad < 0xC2" "\<not> bad < 0x80" "\<not> bad \<le> 0xBF"
    using assms by (simp_all add: word_less_nat_alt word_le_nat_alt)
  ultimately show "\<not> is_continuation bad" and "utf8_next bad ys = Skipped 1"
    by (simp_all add: is_continuation_def utf8_next_def)
qed


lemma utf8_decode_replace_marks:
  assumes "0xF5 \<le> bad"
  shows "utf8_decode_replace (xs @ bad # ys) = utf8_decode_replace xs @ 0xFFFD # utf8_decode_replace ys"
  using utf8_decode_replace_resumes[OF invalid_start_byte(1)[OF assms], of xs ys]
    invalid_start_byte(2)[OF assms, of ys]
  by simp



lemma sample_bytes_decoded:
  "utf8_decode_ignore [0x61, 0xFF, 0x62] = [0x61, 0x62]"
  "utf8_decode_replace [0x61, 0xFF, 0x62] = [0x61, 0xFFFD, 0x62]"
  by (simp_all add: utf8_next_def)






end
